theory Spec2Isabelle
  imports Main
begin

section \<open>The syntax trees the resolver consumes and emits\<close>

text \<open>
  The generator works on \<^verbatim>\<open>go/ast\<close> nodes. Type expressions and value expressions are
  both \<^verbatim>\<open>ast.Expr\<close>, so one datatype holds them. An \<^verbatim>\<open>*ast.Ident\<close> is kept as its
  \<^verbatim>\<open>Name\<close>; positions and resolved objects are not read by the code and are left out.
  A \<^verbatim>\<open>*ast.FieldList\<close> is the list of its fields. The only pointer the code tests
  against \<^verbatim>\<open>nil\<close> inside a type is \<^verbatim>\<open>ArrayType.Len\<close>, which therefore is an option;
  every other child is present, as in the trees \<^verbatim>\<open>go/parser\<close> builds.
\<close>

datatype token = VAR | ASSIGN | DEFINE | EQL | NEQ | LSS | LAND | LOR | INC | INT_tok

datatype expr =
    Ident string
  | BasicLit token string
  | CompositeLit expr
  | SelectorExpr expr string
  | IndexExpr expr expr
  | CallExpr expr "expr list"
  | StarExpr expr
  | BinaryExpr expr token expr
  | ParenExpr expr
  | Ellipsis expr
  | ArrayType "expr option" expr
  | StructType "field list"
  | FuncType "field list" "field list"
  | InterfaceType "field list"
  | MapType expr expr
  | ChanType expr
and field = Field (Names: "string list") (Type: expr)

datatype spec = ValueSpec "string list" expr

datatype decl = GenDecl token "spec list"

datatype stmt =
    AssignStmt "expr list" token "expr list"
  | DeclStmt decl
  | IncDecStmt expr token
  | IfStmt stmt expr "stmt list"
  | ForStmt stmt expr stmt "stmt list"

section \<open>Results\<close>

text \<open>
  Every resolver returns the Go triple \<^verbatim>\<open>(ast.Expr, []ast.Stmt, error)\<close>: the expression
  may be \<^verbatim>\<open>nil\<close>, a \<^verbatim>\<open>nil\<close> slice is the empty list, and the error may be \<^verbatim>\<open>nil\<close>.
  The messages built with \<^verbatim>\<open>fmt.Errorf\<close> are kept as constructors that carry the values
  the format string prints.
\<close>

datatype error =
    NotFound string
  | UnresolvedIdentifier error
  | UnresolvedPointerElement expr error
  | UnresolvedArrayElement expr error
  | UnresolvedStructField expr error
  | UnresolvedArgument string expr error

datatype panic = UnrecognizedNativeType expr | IndexOutOfRange nat

datatype 'a outcome = Panic panic | Ret 'a

type_synonym resolved = "(expr option \<times> stmt list \<times> error option) outcome"

type_synonym generator = "string \<rightharpoonup> expr"

text \<open>
  Modelled from the spec: \<^verbatim>\<open>gen.getTypeAlias\<close> is called by \<^verbatim>\<open>resolveIdent\<close> but its
  body is not part of the source file. The spec gives the lookup as
  \<^verbatim>\<open>lookup(name) -> TypeShape, fails with NotFound\<close> over a table that resolution never
  changes, and has the failure reported with the offending name.
\<close>

definition getTypeAlias :: "generator \<Rightarrow> string \<Rightarrow> error + expr" where
  "getTypeAlias gen typeStr =
     (case gen typeStr of None \<Rightarrow> Inl (NotFound typeStr) | Some t \<Rightarrow> Inr t)"

section \<open>The resolvers\<close>

text \<open>
  The five methods call each other through \<^verbatim>\<open>gen.ResolveValue\<close> only. Each resolver
  below takes that callee as its argument \<open>rv\<close>, and \<open>ResolveValue\<close> ties the knot.
  An alias may name itself, so resolution need not end: \<open>ResolveValue\<close> counts fuel, one
  unit for each call, and \<open>None\<close> means the fuel ran out.
\<close>

type_synonym resolver = "string \<Rightarrow> expr \<Rightarrow> expr \<Rightarrow> expr option \<Rightarrow> resolved option"

definition resolveIdent ::
  "generator \<Rightarrow> resolver \<Rightarrow> string \<Rightarrow> expr \<Rightarrow> string \<Rightarrow> expr option \<Rightarrow> resolved option" where
  "resolveIdent gen rv name jsValue typeStr dst =
     (if typeStr \<in> set [''bool'', ''string'', ''int'', ''int8'', ''int16'', ''int32'', ''rune'',
            ''int64'', ''uint'', ''uint8'', ''byte'', ''uint16'', ''uint32'', ''uint64'',
            ''uintptr'', ''float32'', ''float64'']
      then
        (let method =
               (if typeStr = ''bool'' then ''Bool''
                else if typeStr = ''string'' then ''String''
                else if typeStr \<in> set [''float32'', ''float64''] then ''Float''
                else ''Int'');
             typeCast =
               (if typeStr \<in> set [''bool'', ''string'', ''int'', ''float64''] then []
                else typeStr);
             expr0 = CallExpr (SelectorExpr jsValue method) [];
             expr1 = (if typeCast \<noteq> [] then CallExpr (Ident typeCast) [expr0] else expr0)
         in case dst of
              Some d \<Rightarrow> Some (Ret (Some d, [AssignStmt [d] ASSIGN [expr1]], None))
            | None \<Rightarrow> Some (Ret (Some expr1, [], None)))
      else
        (case getTypeAlias gen typeStr of
           Inl err \<Rightarrow> Some (Ret (None, [], Some (UnresolvedIdentifier err)))
         | Inr aliased \<Rightarrow> rv typeStr jsValue aliased dst))"

definition resolvePointer ::
  "resolver \<Rightarrow> string \<Rightarrow> expr \<Rightarrow> expr \<Rightarrow> expr option \<Rightarrow> resolved option" where
  "resolvePointer rv name jsValue x dst =
     (let (dst', resolver) =
            (case dst of
               None \<Rightarrow> (Ident name, [DeclStmt (GenDecl VAR [ValueSpec [name] (StarExpr x)])])
             | Some d \<Rightarrow> (d, []))
      in case rv (name @ ''Elt'') jsValue x (Some dst') of
           None \<Rightarrow> None
         | Some (Panic p) \<Rightarrow> Some (Panic p)
         | Some (Ret (_, eltResolver, Some err)) \<Rightarrow>
             Some (Ret (None, [], Some (UnresolvedPointerElement x err)))
         | Some (Ret (_, eltResolver, None)) \<Rightarrow>
             Some (Ret (Some dst',
               resolver @
               [IfStmt
                  (AssignStmt [Ident ''jsType''] DEFINE
                     [CallExpr (SelectorExpr jsValue ''Type'') []])
                  (BinaryExpr
                     (BinaryExpr (Ident ''jsType'') NEQ
                        (SelectorExpr (Ident ''js'') ''TypeUndefined''))
                     LOR
                     (BinaryExpr (Ident ''jsType'') NEQ
                        (SelectorExpr (Ident ''js'') ''TypeNull'')))
                  eltResolver],
               None)))"

definition resolveArray ::
  "resolver \<Rightarrow> string \<Rightarrow> expr \<Rightarrow> expr option \<Rightarrow> expr \<Rightarrow> expr option \<Rightarrow> resolved option" where
  "resolveArray rv name jsValue len elt dst =
     (let (lenExpr, resolver0) =
            (case len of
               None \<Rightarrow>
                 (Ident (name @ ''Len''),
                  [AssignStmt [Ident (name @ ''Len'')] DEFINE
                     [CallExpr (SelectorExpr jsValue ''Length'') []]])
             | Some l \<Rightarrow> (l, []));
          (dst', resolver) =
            (case dst of
               None \<Rightarrow>
                 (Ident name,
                  (if len = None
                   then resolver0 @
                        [AssignStmt [Ident name] DEFINE
                           [CallExpr (Ident ''make'') [ArrayType len elt, lenExpr]]]
                   else resolver0 @
                        [DeclStmt (GenDecl VAR [ValueSpec [name] (ArrayType len elt)])]))
             | Some d \<Rightarrow> (d, resolver0));
          idxIdent = Ident (name @ ''Idx'')
      in case rv (name @ ''Elt'')
                (CallExpr (SelectorExpr jsValue ''Index'') [idxIdent]) elt
                (Some (IndexExpr dst' idxIdent)) of
           None \<Rightarrow> None
         | Some (Panic p) \<Rightarrow> Some (Panic p)
         | Some (Ret (_, eltResolver, Some err)) \<Rightarrow>
             Some (Ret (None, [], Some (UnresolvedArrayElement elt err)))
         | Some (Ret (_, eltResolver, None)) \<Rightarrow>
             Some (Ret (Some dst',
               resolver @
               [ForStmt
                  (AssignStmt [idxIdent] DEFINE [BasicLit INT_tok ''0''])
                  (BinaryExpr idxIdent LSS lenExpr)
                  (IncDecStmt idxIdent INC)
                  eltResolver],
               None)))"

text \<open>
  The two nested \<^verbatim>\<open>range\<close> loops of \<^verbatim>\<open>resolveStruct\<close>. A loop yields \<open>Inl r\<close> when its
  body made the method return \<open>r\<close>, and \<open>Inr resolver\<close> when it ran to its end with the
  statements collected so far.
\<close>

primrec structNames ::
  "resolver \<Rightarrow> string \<Rightarrow> expr \<Rightarrow> expr \<Rightarrow> expr \<Rightarrow> string list \<Rightarrow> stmt list
     \<Rightarrow> (resolved + stmt list) option" where
  "structNames rv name jsValue dst' fieldType [] resolver = Some (Inr resolver)"
| "structNames rv name jsValue dst' fieldType (fieldName # rest) resolver =
     (case rv (name @ fieldName)
             (CallExpr (SelectorExpr jsValue ''Get'') [Ident fieldName]) fieldType
             (Some (SelectorExpr dst' fieldName)) of
        None \<Rightarrow> None
      | Some (Panic p) \<Rightarrow> Some (Inl (Panic p))
      | Some (Ret (_, fieldResolver, Some err)) \<Rightarrow>
          Some (Inl (Ret (None, [], Some (UnresolvedStructField fieldType err))))
      | Some (Ret (_, fieldResolver, None)) \<Rightarrow>
          structNames rv name jsValue dst' fieldType rest (resolver @ fieldResolver))"

primrec structFields ::
  "resolver \<Rightarrow> string \<Rightarrow> expr \<Rightarrow> expr \<Rightarrow> field list \<Rightarrow> stmt list
     \<Rightarrow> (resolved + stmt list) option" where
  "structFields rv name jsValue dst' [] resolver = Some (Inr resolver)"
| "structFields rv name jsValue dst' (f # fs) resolver =
     (case structNames rv name jsValue dst' (Type f) (Names f) resolver of
        None \<Rightarrow> None
      | Some (Inl r) \<Rightarrow> Some (Inl r)
      | Some (Inr resolver') \<Rightarrow> structFields rv name jsValue dst' fs resolver')"

definition resolveStruct ::
  "resolver \<Rightarrow> string \<Rightarrow> expr \<Rightarrow> field list \<Rightarrow> expr option \<Rightarrow> resolved option" where
  "resolveStruct rv name jsValue fields dst =
     (let (dst', resolver) =
            (case dst of
               None \<Rightarrow>
                 (Ident name,
                  [AssignStmt [Ident name] DEFINE [CompositeLit (StructType fields)]])
             | Some d \<Rightarrow> (d, []))
      in case structFields rv name jsValue dst' fields resolver of
           None \<Rightarrow> None
         | Some (Inl r) \<Rightarrow> Some r
         | Some (Inr resolver') \<Rightarrow> Some (Ret (Some dst', resolver', None)))"

primrec ResolveValue :: "generator \<Rightarrow> nat \<Rightarrow> resolver" where
  "ResolveValue gen 0 = (\<lambda>name jsValue nativeType dst. None)"
| "ResolveValue gen (Suc n) = (\<lambda>name jsValue nativeType dst.
     (case nativeType of
        Ident typeStr \<Rightarrow> resolveIdent gen (ResolveValue gen n) name jsValue typeStr dst
      | StarExpr x \<Rightarrow> resolvePointer (ResolveValue gen n) name jsValue x dst
      | ArrayType len elt \<Rightarrow> resolveArray (ResolveValue gen n) name jsValue len elt dst
      | StructType fields \<Rightarrow> resolveStruct (ResolveValue gen n) name jsValue fields dst
      | _ \<Rightarrow> Some (Panic (UnrecognizedNativeType nativeType))))"

text \<open>
  \<^verbatim>\<open>strconv.Itoa\<close> on the loop counter, which is never negative, and
  \<^verbatim>\<open>FieldList.NumFields\<close>, which counts an entry without names as one.
\<close>

fun Itoa :: "nat \<Rightarrow> string" where
  "Itoa i = (if i < 10 then [''0123456789'' ! i]
             else Itoa (i div 10) @ [''0123456789'' ! (i mod 10)])"

declare Itoa.simps [simp del]

primrec NumFields :: "field list \<Rightarrow> nat" where
  "NumFields [] = 0"
| "NumFields (g # gs) = (if length (Names g) = 0 then 1 else length (Names g)) + NumFields gs"

type_synonym resolvedArgs = "(expr option list \<times> stmt list \<times> error option) outcome"

text \<open>
  The loops of \<^verbatim>\<open>resolveFuncArgs\<close> carry the counter \<^verbatim>\<open>i\<close>, the slice \<^verbatim>\<open>args\<close> and the
  collected \<^verbatim>\<open>resolvers\<close>. Storing into \<^verbatim>\<open>args[i]\<close> panics in Go when \<^verbatim>\<open>i\<close> is out of
  range, and it does so before the error is looked at.
\<close>

primrec argNames ::
  "resolver \<Rightarrow> expr \<Rightarrow> string list \<Rightarrow> nat \<times> expr option list \<times> stmt list
     \<Rightarrow> (resolvedArgs + nat \<times> expr option list \<times> stmt list) option" where
  "argNames rv paramType [] st = Some (Inr st)"
| "argNames rv paramType (name # rest) st =
     (case st of (i, args, resolvers) \<Rightarrow>
        (case rv name (IndexExpr (Ident ''args'') (BasicLit INT_tok (Itoa i))) paramType None of
           None \<Rightarrow> None
         | Some (Panic p) \<Rightarrow> Some (Inl (Panic p))
         | Some (Ret (e, resolver, err)) \<Rightarrow>
             if length args \<le> i then Some (Inl (Panic (IndexOutOfRange i)))
             else (case err of
                     Some er \<Rightarrow>
                       Some (Inl (Ret ([], [], Some (UnresolvedArgument name paramType er))))
                   | None \<Rightarrow>
                       argNames rv paramType rest (Suc i, args[i := e], resolvers @ resolver))))"

primrec argFields ::
  "resolver \<Rightarrow> field list \<Rightarrow> nat \<times> expr option list \<times> stmt list
     \<Rightarrow> (resolvedArgs + nat \<times> expr option list \<times> stmt list) option" where
  "argFields rv [] st = Some (Inr st)"
| "argFields rv (param # params) st =
     (case argNames rv (Type param) (Names param) st of
        None \<Rightarrow> None
      | Some (Inl r) \<Rightarrow> Some (Inl r)
      | Some (Inr st') \<Rightarrow> argFields rv params st')"

definition resolveFuncArgs :: "generator \<Rightarrow> nat \<Rightarrow> field list \<Rightarrow> resolvedArgs option" where
  "resolveFuncArgs gen n params =
     (case argFields (ResolveValue gen n) params (0, replicate (NumFields params) None, []) of
        None \<Rightarrow> None
      | Some (Inl r) \<Rightarrow> Some r
      | Some (Inr (i, args, resolvers)) \<Rightarrow> Some (Ret (args, resolvers, None)))"

section \<open>Reading the emitted guard\<close>

text \<open>
  The kinds of \<^verbatim>\<open>syscall/js\<close>, and the value of a guard condition once \<^verbatim>\<open>jsType\<close> holds
  the kind of the source: Go's \<^verbatim>\<open>!=\<close>, \<^verbatim>\<open>==\<close>, \<^verbatim>\<open>||\<close> and \<^verbatim>\<open>&&\<close> over the two names
  the guard mentions.
\<close>

datatype jsKind = TypeUndefined | TypeNull | TypeBoolean | TypeNumber | TypeString
  | TypeSymbol | TypeObject | TypeFunction

definition evalKind :: "jsKind \<Rightarrow> expr \<Rightarrow> jsKind option" where
  "evalKind k e =
     (if e = Ident ''jsType'' then Some k
      else if e = SelectorExpr (Ident ''js'') ''TypeUndefined'' then Some TypeUndefined
      else if e = SelectorExpr (Ident ''js'') ''TypeNull'' then Some TypeNull
      else None)"

fun evalCond :: "jsKind \<Rightarrow> expr \<Rightarrow> bool option" where
  "evalCond k (BinaryExpr x op y) =
     (if op = NEQ \<or> op = EQL then
        (case (evalKind k x, evalKind k y) of
           (Some a, Some b) \<Rightarrow> Some (if op = NEQ then a \<noteq> b else a = b)
         | _ \<Rightarrow> None)
      else if op = LOR then
        (case evalCond k x of
           None \<Rightarrow> None | Some True \<Rightarrow> Some True | Some False \<Rightarrow> evalCond k y)
      else if op = LAND then
        (case evalCond k x of
           None \<Rightarrow> None | Some False \<Rightarrow> Some False | Some True \<Rightarrow> evalCond k y)
      else None)"
| "evalCond k (ParenExpr x) = evalCond k x"
| "evalCond k _ = None"

section \<open>Shapes built from the four handled variants only\<close>

fun handled :: "expr \<Rightarrow> bool" and handledField :: "field \<Rightarrow> bool" where
  "handled (Ident t) = True"
| "handled (StarExpr x) = handled x"
| "handled (ArrayType len elt) = handled elt"
| "handled (StructType fields) = (\<forall>f \<in> set fields. handledField f)"
| "handled _ = False"
| "handledField (Field names t) = handled t"

section \<open>Auxiliary notions used to state the properties\<close>

text \<open>
  The specification's reading of the scalar case: the accessor and the narrowing cast that
  belong to a built-in name, written from the words of the specification and compared with
  \<open>resolveIdent\<close> below.
\<close>

definition integerFamily :: "string list" where
  "integerFamily = [''int'', ''int8'', ''int16'', ''int32'', ''rune'', ''int64'', ''uint'',
     ''uint8'', ''byte'', ''uint16'', ''uint32'', ''uint64'', ''uintptr'']"

definition floatFamily :: "string list" where
  "floatFamily = [''float32'', ''float64'']"

definition scalarNames :: "string list" where
  "scalarNames = ''bool'' # ''string'' # integerFamily @ floatFamily"

definition specAccessor :: "string \<Rightarrow> string" where
  "specAccessor t =
     (if t = ''bool'' then ''Bool'' else if t = ''string'' then ''String''
      else if t \<in> set integerFamily then ''Int'' else ''Float'')"

definition specCast :: "string \<Rightarrow> string option" where
  "specCast t =
     (if t \<in> set integerFamily \<and> t \<noteq> ''int'' then Some t
      else if t \<in> set floatFamily \<and> t \<noteq> ''float64'' then Some t
      else None)"

definition specScalar :: "expr \<Rightarrow> string \<Rightarrow> expr" where
  "specScalar jsValue t =
     (let call = CallExpr (SelectorExpr jsValue (specAccessor t)) []
      in case specCast t of None \<Rightarrow> call | Some c \<Rightarrow> CallExpr (Ident c) [call])"

text \<open>
  A chain of aliases \<open>a\<^sub>1, \<dots>, a\<^sub>k\<close>: no link is a built-in name, each link is bound in the
  table to the identifier of the next one, and the last link to the target.
\<close>

primrec aliasPath :: "generator \<Rightarrow> string list \<Rightarrow> string \<Rightarrow> bool" where
  "aliasPath gen [] target = True"
| "aliasPath gen (a # rest) target =
     (a \<notin> set scalarNames \<and>
      gen a = Some (Ident (case rest of [] \<Rightarrow> target | b # _ \<Rightarrow> b)) \<and>
      aliasPath gen rest target)"

text \<open>
  The named entries of a field list in declaration order, each with the type of its entry:
  what the two nested \<^verbatim>\<open>range\<close> loops walk through.
\<close>

definition namedFields :: "field list \<Rightarrow> (string \<times> expr) list" where
  "namedFields fields = concat (map (\<lambda>f. map (\<lambda>fieldName. (fieldName, Type f)) (Names f)) fields)"

text \<open>The statements of a result, and whether a shape is one of the four dispatched variants.\<close>

definition stmtsOf :: "resolved option \<Rightarrow> stmt list" where
  "stmtsOf r = (case r of Some (Ret (e, ss, err)) \<Rightarrow> ss | _ \<Rightarrow> [])"

definition fourVariants :: "expr \<Rightarrow> bool" where
  "fourVariants nativeType =
     (case nativeType of
        Ident t \<Rightarrow> True | StarExpr x \<Rightarrow> True | ArrayType len elt \<Rightarrow> True
      | StructType fields \<Rightarrow> True | _ \<Rightarrow> False)"

section \<open>Unfolding the dispatcher\<close>

lemma ResolveValue_0 [simp]: "ResolveValue gen 0 name jsValue nativeType dst = None"
  by simp

lemma ResolveValue_Ident [simp]:
  "ResolveValue gen (Suc n) name jsValue (Ident typeStr) dst =
     resolveIdent gen (ResolveValue gen n) name jsValue typeStr dst"
  by simp

lemma ResolveValue_StarExpr [simp]:
  "ResolveValue gen (Suc n) name jsValue (StarExpr x) dst =
     resolvePointer (ResolveValue gen n) name jsValue x dst"
  by simp

lemma ResolveValue_ArrayType [simp]:
  "ResolveValue gen (Suc n) name jsValue (ArrayType len elt) dst =
     resolveArray (ResolveValue gen n) name jsValue len elt dst"
  by simp

lemma ResolveValue_StructType [simp]:
  "ResolveValue gen (Suc n) name jsValue (StructType fields) dst =
     resolveStruct (ResolveValue gen n) name jsValue fields dst"
  by simp

lemma ResolveValue_other:
  "\<not> fourVariants nativeType \<Longrightarrow>
   ResolveValue gen (Suc n) name jsValue nativeType dst =
     Some (Panic (UnrecognizedNativeType nativeType))"
  by (cases nativeType) (simp_all add: fourVariants_def)

declare ResolveValue.simps [simp del]

lemmas scalar_defs = scalarNames_def integerFamily_def floatFamily_def

section \<open>Named scalars\<close>

lemma resolveIdent_scalar:
  assumes "t \<in> set scalarNames"
  shows "resolveIdent gen rv name jsValue t dst =
     Some (Ret (case dst of
                  None \<Rightarrow> (Some (specScalar jsValue t), [], None)
                | Some d \<Rightarrow> (Some d, [AssignStmt [d] ASSIGN [specScalar jsValue t]], None)))"
  using assms unfolding scalar_defs
  by (auto simp add: resolveIdent_def specScalar_def specAccessor_def specCast_def
        integerFamily_def floatFamily_def split: option.split)

text \<open>
  C6. A built-in name resolves to the accessor call the specification names (\<open>Bool\<close>,
  \<open>String\<close>, \<open>Int\<close>, \<open>Float\<close>), wrapped in a cast to the name itself unless the name is
  \<open>int\<close> or \<open>float64\<close> (or is not numeric). With a destination the result is the destination
  and exactly one assignment of that expression to it; without one the result is the
  expression and no statement. Any positive fuel suffices.
\<close>

theorem named_scalar_resolution:
  assumes "t \<in> set scalarNames"
  shows "ResolveValue gen (Suc n) name jsValue (Ident t) None =
           Some (Ret (Some (specScalar jsValue t), [], None)) \<and>
         ResolveValue gen (Suc n) name jsValue (Ident t) (Some d) =
           Some (Ret (Some d, [AssignStmt [d] ASSIGN [specScalar jsValue t]], None)) \<and>
         specAccessor ''bool'' = ''Bool'' \<and> specCast ''bool'' = None \<and>
         specAccessor ''string'' = ''String'' \<and> specCast ''string'' = None \<and>
         (\<forall>i \<in> set integerFamily.
            specAccessor i = ''Int'' \<and> specCast i = (if i = ''int'' then None else Some i)) \<and>
         (\<forall>f \<in> set floatFamily.
            specAccessor f = ''Float'' \<and> specCast f = (if f = ''float64'' then None else Some f))"
  using resolveIdent_scalar [OF assms]
  by (simp add: specAccessor_def specCast_def integerFamily_def floatFamily_def)

theorem named_scalar_resolution_witness:
  "''uint16'' \<in> set scalarNames \<and>
   ResolveValue Map.empty (Suc 0) ''v'' (Ident ''src'') (Ident ''uint16'') None =
     Some (Ret (Some (CallExpr (Ident ''uint16'')
                        [CallExpr (SelectorExpr (Ident ''src'') ''Int'') []]), [], None)) \<and>
   ResolveValue Map.empty (Suc 0) ''v'' (Ident ''src'') (Ident ''uint16'') (Some (Ident ''out'')) =
     Some (Ret (Some (Ident ''out''),
                [AssignStmt [Ident ''out''] ASSIGN
                   [CallExpr (Ident ''uint16'')
                      [CallExpr (SelectorExpr (Ident ''src'') ''Int'') []]]], None))"
proof -
  have h: "''uint16'' \<in> set scalarNames" by (simp add: scalar_defs)
  show ?thesis
    using h named_scalar_resolution [OF h, of Map.empty 0 "''v''" "Ident ''src''" "Ident ''out''"]
    by (simp add: specScalar_def specAccessor_def specCast_def integerFamily_def floatFamily_def)
qed

section \<open>Aliases\<close>

lemma ResolveValue_alias_step:
  assumes "a \<notin> set scalarNames" and "gen a = Some t"
  shows "ResolveValue gen (Suc n) name jsValue (Ident a) dst = ResolveValue gen n a jsValue t dst"
  using assms by (simp add: resolveIdent_def getTypeAlias_def scalar_defs)

lemma ResolveValue_alias_path:
  "aliasPath gen (a # rest) target \<Longrightarrow>
   ResolveValue gen (length (a # rest) + n) name jsValue (Ident a) dst =
   ResolveValue gen n (last (a # rest)) jsValue (Ident target) dst"
proof (induction rest arbitrary: a name)
  case Nil
  then show ?case using ResolveValue_alias_step [of a gen "Ident target" n] by simp
next
  case (Cons b rest)
  from Cons.prems have a: "a \<notin> set scalarNames" "gen a = Some (Ident b)"
    and p: "aliasPath gen (b # rest) target" by simp_all
  have "ResolveValue gen (length (a # b # rest) + n) name jsValue (Ident a) dst =
        ResolveValue gen (length (b # rest) + n) a jsValue (Ident b) dst"
    using ResolveValue_alias_step [of a gen "Ident b" "length (b # rest) + n" name jsValue dst, OF a]
    by simp
  also have "\<dots> = ResolveValue gen n (last (b # rest)) jsValue (Ident target) dst"
    by (rule Cons.IH [OF p])
  finally show ?case by simp
qed

lemma ResolveValue_int32:
  "ResolveValue gen (Suc n) name jsValue (Ident ''int32'') dst =
     Some (Ret (case dst of
        None \<Rightarrow>
          (Some (CallExpr (Ident ''int32'') [CallExpr (SelectorExpr jsValue ''Int'') []]),
           [], None)
      | Some d \<Rightarrow>
          (Some d,
           [AssignStmt [d] ASSIGN
              [CallExpr (Ident ''int32'') [CallExpr (SelectorExpr jsValue ''Int'') []]]],
           None)))"
  by (simp add: resolveIdent_def split: option.split)

lemma ResolveValue_absent:
  assumes "a \<notin> set scalarNames" and "gen a = None"
  shows "ResolveValue gen (Suc n) name jsValue (Ident a) dst =
     Some (Ret (None, [], Some (UnresolvedIdentifier (NotFound a))))"
  using assms by (simp add: resolveIdent_def getTypeAlias_def scalar_defs)

text \<open>
  C8. Let \<open>a\<close> reach \<open>int32\<close> through a chain of table entries, none of them a built-in
  name. With one unit of fuel for each link on top of what \<open>int32\<close> itself needs,
  resolving \<open>a\<close> gives exactly the result of resolving \<open>int32\<close> with the same source and
  destination: the \<open>Int\<close> accessor under an \<open>int32\<close> cast, assigned to the destination when
  there is one. A name that is neither built-in nor in the table fails with
  \<open>UnresolvedIdentifier\<close> around the lookup's failure for that name, with no expression
  and no statement.
\<close>

theorem alias_chain_int32:
  "(aliasPath gen (a # rest) ''int32'' \<longrightarrow>
      ResolveValue gen (length (a # rest) + Suc n) name jsValue (Ident a) dst =
        ResolveValue gen (Suc n) name jsValue (Ident ''int32'') dst \<and>
      ResolveValue gen (Suc n) name jsValue (Ident ''int32'') dst =
        Some (Ret (case dst of
          None \<Rightarrow>
            (Some (CallExpr (Ident ''int32'') [CallExpr (SelectorExpr jsValue ''Int'') []]),
             [], None)
        | Some d \<Rightarrow>
            (Some d,
             [AssignStmt [d] ASSIGN
                [CallExpr (Ident ''int32'') [CallExpr (SelectorExpr jsValue ''Int'') []]]],
             None)))) \<and>
   (b \<notin> set scalarNames \<and> gen b = None \<longrightarrow>
      ResolveValue gen (Suc n) name jsValue (Ident b) dst =
        Some (Ret (None, [], Some (UnresolvedIdentifier (NotFound b)))))"
  using ResolveValue_alias_path [of gen a rest "''int32''" "Suc n" name jsValue dst]
    ResolveValue_int32 [of gen n _ jsValue dst] ResolveValue_absent [of b gen n name jsValue dst]
  by simp

theorem alias_chain_int32_witness:
  "aliasPath [''Id'' \<mapsto> Ident ''Key'', ''Key'' \<mapsto> Ident ''int32''] [''Id'', ''Key''] ''int32'' \<and>
   ResolveValue [''Id'' \<mapsto> Ident ''Key'', ''Key'' \<mapsto> Ident ''int32'']
       (length [''Id'', ''Key''] + Suc 0) ''v'' (Ident ''src'') (Ident ''Id'') (Some (Ident ''out'')) =
     Some (Ret (Some (Ident ''out''),
       [AssignStmt [Ident ''out''] ASSIGN
          [CallExpr (Ident ''int32'') [CallExpr (SelectorExpr (Ident ''src'') ''Int'') []]]],
       None)) \<and>
   ''Row'' \<notin> set scalarNames \<and>
   [''Id'' \<mapsto> Ident ''Key'', ''Key'' \<mapsto> Ident ''int32''] ''Row'' = None \<and>
   ResolveValue [''Id'' \<mapsto> Ident ''Key'', ''Key'' \<mapsto> Ident ''int32'']
       (Suc 0) ''v'' (Ident ''src'') (Ident ''Row'') (Some (Ident ''out'')) =
     Some (Ret (None, [], Some (UnresolvedIdentifier (NotFound ''Row''))))"
proof -
  let ?g = "[''Id'' \<mapsto> Ident ''Key'', ''Key'' \<mapsto> Ident ''int32'']"
  have p: "aliasPath ?g [''Id'', ''Key''] ''int32''" by (simp add: scalar_defs)
  have q: "''Row'' \<notin> set scalarNames \<and> ?g ''Row'' = None" by (simp add: scalar_defs)
  show ?thesis
    using p q alias_chain_int32 [of ?g "''Id''" "[''Key'']" 0 "''v''" "Ident ''src''"
        "Some (Ident ''out'')" "''Row''"]
    by (simp del: aliasPath.simps)
qed

section \<open>Records: entries without names\<close>

lemma structFields_append:
  "structFields rv name jsValue d (fs1 @ fs2) acc =
     (case structFields rv name jsValue d fs1 acc of
        None \<Rightarrow> None
      | Some (Inl r) \<Rightarrow> Some (Inl r)
      | Some (Inr acc') \<Rightarrow> structFields rv name jsValue d fs2 acc')"
  by (induction fs1 arbitrary: acc) (auto split: option.split sum.split)

lemma structFields_embedded:
  "structFields rv name jsValue d (fs1 @ Field [] t # fs2) acc =
   structFields rv name jsValue d (fs1 @ fs2) acc"
  by (simp add: structFields_append split: option.split sum.split)

text \<open>
  C10. A field entry with no names (an embedded field) is passed over: with a destination
  the record resolves exactly as the record without that entry, whatever the entry's type;
  the loop over the fields gives the same statements with or without the entry from any
  statements collected so far; and a record holding only such an entry resolves, with any
  fuel, to its allocation alone and no error.
\<close>

theorem embedded_field_skipped:
  "ResolveValue gen (Suc n) name jsValue (StructType (fs1 @ Field [] t # fs2)) (Some d) =
     ResolveValue gen (Suc n) name jsValue (StructType (fs1 @ fs2)) (Some d) \<and>
   structFields (ResolveValue gen n) name jsValue d (fs1 @ Field [] t # fs2) acc =
     structFields (ResolveValue gen n) name jsValue d (fs1 @ fs2) acc \<and>
   ResolveValue gen (Suc n) name jsValue (StructType [Field [] t]) None =
     Some (Ret (Some (Ident name),
       [AssignStmt [Ident name] DEFINE [CompositeLit (StructType [Field [] t])]], None))"
  by (simp add: resolveStruct_def structFields_embedded)

section \<open>Pointers: the guard\<close>

text \<open>
  C1. Resolving \<^verbatim>\<open>*int\<close> from \<^verbatim>\<open>args[0]\<close> without a destination emits the declaration and
  one guarded block. The guard is the disjunction of the two inequalities, so when the kind
  of the source is \<open>null\<close> it evaluates to true and the inner assignment runs; indeed it
  evaluates to true for every kind \<open>k\<close>.
\<close>

theorem guard_runs_on_null:
  "ResolveValue Map.empty 2 ''p'' (IndexExpr (Ident ''args'') (BasicLit INT_tok ''0''))
      (StarExpr (Ident ''int'')) None =
     Some (Ret (Some (Ident ''p''),
       [DeclStmt (GenDecl VAR [ValueSpec [''p''] (StarExpr (Ident ''int''))]),
        IfStmt
          (AssignStmt [Ident ''jsType''] DEFINE
            [CallExpr (SelectorExpr (IndexExpr (Ident ''args'') (BasicLit INT_tok ''0''))
               ''Type'') []])
          (BinaryExpr
            (BinaryExpr (Ident ''jsType'') NEQ (SelectorExpr (Ident ''js'') ''TypeUndefined''))
            LOR
            (BinaryExpr (Ident ''jsType'') NEQ (SelectorExpr (Ident ''js'') ''TypeNull'')))
          [AssignStmt [Ident ''p''] ASSIGN
            [CallExpr (SelectorExpr (IndexExpr (Ident ''args'') (BasicLit INT_tok ''0''))
               ''Int'') []]]],
       None)) \<and>
   evalCond TypeNull
     (BinaryExpr
        (BinaryExpr (Ident ''jsType'') NEQ (SelectorExpr (Ident ''js'') ''TypeUndefined''))
        LOR
        (BinaryExpr (Ident ''jsType'') NEQ (SelectorExpr (Ident ''js'') ''TypeNull''))) =
     Some True \<and>
   evalCond k
     (BinaryExpr
        (BinaryExpr (Ident ''jsType'') NEQ (SelectorExpr (Ident ''js'') ''TypeUndefined''))
        LOR
        (BinaryExpr (Ident ''jsType'') NEQ (SelectorExpr (Ident ''js'') ''TypeNull''))) =
     Some True"
  by (cases k) (simp_all add: numeral_2_eq_2 resolvePointer_def resolveIdent_def evalKind_def)

section \<open>Pointers and sequences: the emitted statements\<close>

lemma resolvePointer_ok:
  assumes "rv (name @ ''Elt'') jsValue x (Some (case dst of None \<Rightarrow> Ident name | Some d \<Rightarrow> d)) =
             Some (Ret (e, body, None))"
  shows "resolvePointer rv name jsValue x dst =
     Some (Ret (Some (case dst of None \<Rightarrow> Ident name | Some d \<Rightarrow> d),
       (case dst of
          None \<Rightarrow> [DeclStmt (GenDecl VAR [ValueSpec [name] (StarExpr x)])]
        | Some d \<Rightarrow> []) @
       [IfStmt
          (AssignStmt [Ident ''jsType''] DEFINE [CallExpr (SelectorExpr jsValue ''Type'') []])
          (BinaryExpr
             (BinaryExpr (Ident ''jsType'') NEQ (SelectorExpr (Ident ''js'') ''TypeUndefined''))
             LOR
             (BinaryExpr (Ident ''jsType'') NEQ (SelectorExpr (Ident ''js'') ''TypeNull'')))
          body],
       None))"
  using assms by (cases dst) (simp_all add: resolvePointer_def)

lemma resolvePointer_err:
  assumes "rv (name @ ''Elt'') jsValue x (Some (case dst of None \<Rightarrow> Ident name | Some d \<Rightarrow> d)) =
             Some (Ret (e, body, Some err))"
  shows "resolvePointer rv name jsValue x dst =
     Some (Ret (None, [], Some (UnresolvedPointerElement x err)))"
  using assms by (cases dst) (simp_all add: resolvePointer_def)

lemma resolveArray_ok:
  assumes "rv (name @ ''Elt'') (CallExpr (SelectorExpr jsValue ''Index'') [Ident (name @ ''Idx'')])
             elt (Some (IndexExpr (case dst of None \<Rightarrow> Ident name | Some d \<Rightarrow> d)
                          (Ident (name @ ''Idx'')))) =
             Some (Ret (e, body, None))"
  shows "resolveArray rv name jsValue len elt dst =
     Some (Ret (Some (case dst of None \<Rightarrow> Ident name | Some d \<Rightarrow> d),
       (case len of
          None \<Rightarrow> [AssignStmt [Ident (name @ ''Len'')] DEFINE
                     [CallExpr (SelectorExpr jsValue ''Length'') []]]
        | Some l \<Rightarrow> []) @
       (case dst of
          Some d \<Rightarrow> []
        | None \<Rightarrow>
            (case len of
               None \<Rightarrow> [AssignStmt [Ident name] DEFINE
                          [CallExpr (Ident ''make'') [ArrayType None elt, Ident (name @ ''Len'')]]]
             | Some l \<Rightarrow> [DeclStmt (GenDecl VAR [ValueSpec [name] (ArrayType (Some l) elt)])])) @
       [ForStmt
          (AssignStmt [Ident (name @ ''Idx'')] DEFINE [BasicLit INT_tok ''0''])
          (BinaryExpr (Ident (name @ ''Idx'')) LSS
             (case len of None \<Rightarrow> Ident (name @ ''Len'') | Some l \<Rightarrow> l))
          (IncDecStmt (Ident (name @ ''Idx'')) INC)
          body],
       None))"
  using assms by (cases dst; cases len) (simp_all add: resolveArray_def Let_def)

lemma resolveArray_err:
  assumes "rv (name @ ''Elt'') (CallExpr (SelectorExpr jsValue ''Index'') [Ident (name @ ''Idx'')])
             elt (Some (IndexExpr (case dst of None \<Rightarrow> Ident name | Some d \<Rightarrow> d)
                          (Ident (name @ ''Idx'')))) =
             Some (Ret (e, body, Some err))"
  shows "resolveArray rv name jsValue len elt dst =
     Some (Ret (None, [], Some (UnresolvedArrayElement elt err)))"
  using assms by (cases dst; cases len) (simp_all add: resolveArray_def Let_def)

section \<open>Records: the loop over the named entries\<close>

lemma structNames_append:
  "structNames rv name jsValue d ty (ns1 @ ns2) acc =
     (case structNames rv name jsValue d ty ns1 acc of
        None \<Rightarrow> None
      | Some (Inl r) \<Rightarrow> Some (Inl r)
      | Some (Inr acc') \<Rightarrow> structNames rv name jsValue d ty ns2 acc')"
  by (induction ns1 arbitrary: acc)
     (auto split: option.split sum.split outcome.split prod.split)

lemma structNames_ok:
  assumes "list_all2 (\<lambda>p ss. \<exists>e. rv (name @ fst p)
              (CallExpr (SelectorExpr jsValue ''Get'') [Ident (fst p)]) (snd p)
              (Some (SelectorExpr d (fst p))) = Some (Ret (e, ss, None)))
            (map (\<lambda>fieldName. (fieldName, ty)) ns) sss"
  shows "structNames rv name jsValue d ty ns acc = Some (Inr (acc @ concat sss))"
  using assms
proof (induction ns arbitrary: acc sss)
  case Nil
  then show ?case by simp
next
  case (Cons fieldName ns)
  then obtain s rest where sss: "sss = s # rest" by (auto simp add: list_all2_Cons1)
  with Cons.prems Cons.IH [of rest "acc @ s"] show ?case by auto
qed

lemma namedFields_Cons:
  "namedFields (f # fs) = map (\<lambda>fieldName. (fieldName, Type f)) (Names f) @ namedFields fs"
  by (simp add: namedFields_def)

lemma namedFields_Nil [simp]: "namedFields [] = []"
  by (simp add: namedFields_def)

lemma namedFields_append: "namedFields (fs1 @ fs2) = namedFields fs1 @ namedFields fs2"
  by (simp add: namedFields_def)

lemma structFields_ok:
  assumes "list_all2 (\<lambda>p ss. \<exists>e. rv (name @ fst p)
              (CallExpr (SelectorExpr jsValue ''Get'') [Ident (fst p)]) (snd p)
              (Some (SelectorExpr d (fst p))) = Some (Ret (e, ss, None)))
            (namedFields fs) sss"
  shows "structFields rv name jsValue d fs acc = Some (Inr (acc @ concat sss))"
  using assms
proof (induction fs arbitrary: acc sss)
  case Nil
  then show ?case by simp
next
  case (Cons f fs)
  from Cons.prems obtain us vs where sss: "sss = us @ vs"
    and us: "list_all2 (\<lambda>p ss. \<exists>e. rv (name @ fst p)
              (CallExpr (SelectorExpr jsValue ''Get'') [Ident (fst p)]) (snd p)
              (Some (SelectorExpr d (fst p))) = Some (Ret (e, ss, None)))
            (map (\<lambda>fieldName. (fieldName, Type f)) (Names f)) us"
    and vs: "list_all2 (\<lambda>p ss. \<exists>e. rv (name @ fst p)
              (CallExpr (SelectorExpr jsValue ''Get'') [Ident (fst p)]) (snd p)
              (Some (SelectorExpr d (fst p))) = Some (Ret (e, ss, None)))
            (namedFields fs) vs"
    unfolding namedFields_Cons list_all2_append1 by blast
  show ?case
    using structNames_ok [OF us, of acc] Cons.IH [OF vs, of "acc @ concat us"] sss by simp
qed

lemma structFields_err:
  assumes pre: "list_all2 (\<lambda>p ss. \<exists>e. rv (name @ fst p)
              (CallExpr (SelectorExpr jsValue ''Get'') [Ident (fst p)]) (snd p)
              (Some (SelectorExpr d (fst p))) = Some (Ret (e, ss, None)))
            (namedFields fs1 @ map (\<lambda>fieldName. (fieldName, ty)) ns1) sss"
    and bad: "rv (name @ fieldName) (CallExpr (SelectorExpr jsValue ''Get'') [Ident fieldName]) ty
              (Some (SelectorExpr d fieldName)) = Some (Ret (e, ss, Some err))"
  shows "structFields rv name jsValue d (fs1 @ Field (ns1 @ fieldName # ns2) ty # fs2) acc =
           Some (Inl (Ret (None, [], Some (UnresolvedStructField ty err))))"
proof -
  from pre obtain us vs where
        us: "list_all2 (\<lambda>p ss. \<exists>e. rv (name @ fst p)
              (CallExpr (SelectorExpr jsValue ''Get'') [Ident (fst p)]) (snd p)
              (Some (SelectorExpr d (fst p))) = Some (Ret (e, ss, None)))
            (namedFields fs1) us"
    and vs: "list_all2 (\<lambda>p ss. \<exists>e. rv (name @ fst p)
              (CallExpr (SelectorExpr jsValue ''Get'') [Ident (fst p)]) (snd p)
              (Some (SelectorExpr d (fst p))) = Some (Ret (e, ss, None)))
            (map (\<lambda>fieldName. (fieldName, ty)) ns1) vs"
    unfolding list_all2_append1 by blast
  show ?thesis
    using structFields_ok [OF us, of acc] structNames_ok [OF vs, of "acc @ concat us"] bad
    by (simp add: structFields_append structNames_append)
qed

lemma resolveStruct_ok:
  assumes "list_all2 (\<lambda>p ss. \<exists>e. rv (name @ fst p)
              (CallExpr (SelectorExpr jsValue ''Get'') [Ident (fst p)]) (snd p)
              (Some (SelectorExpr (case dst of None \<Rightarrow> Ident name | Some d \<Rightarrow> d) (fst p))) =
                Some (Ret (e, ss, None)))
            (namedFields fields) sss"
  shows "resolveStruct rv name jsValue fields dst =
     Some (Ret (Some (case dst of None \<Rightarrow> Ident name | Some d \<Rightarrow> d),
       (case dst of
          None \<Rightarrow> [AssignStmt [Ident name] DEFINE [CompositeLit (StructType fields)]]
        | Some d \<Rightarrow> []) @ concat sss,
       None))"
  using structFields_ok [OF assms]
  by (cases dst) (simp_all add: resolveStruct_def)

lemma resolveStruct_err:
  assumes pre: "list_all2 (\<lambda>p ss. \<exists>e. rv (name @ fst p)
              (CallExpr (SelectorExpr jsValue ''Get'') [Ident (fst p)]) (snd p)
              (Some (SelectorExpr (case dst of None \<Rightarrow> Ident name | Some d \<Rightarrow> d) (fst p))) =
                 Some (Ret (e, ss, None)))
            (namedFields fs1 @ map (\<lambda>fieldName. (fieldName, ty)) ns1) sss"
    and bad: "rv (name @ fieldName) (CallExpr (SelectorExpr jsValue ''Get'') [Ident fieldName]) ty
              (Some (SelectorExpr (case dst of None \<Rightarrow> Ident name | Some d \<Rightarrow> d) fieldName)) =
                Some (Ret (e, ss, Some err))"
  shows "resolveStruct rv name jsValue (fs1 @ Field (ns1 @ fieldName # ns2) ty # fs2) dst =
           Some (Ret (None, [], Some (UnresolvedStructField ty err)))"
  using structFields_err [OF pre bad]
  by (cases dst) (simp_all add: resolveStruct_def)

section \<open>The argument list: counter, slots and statements\<close>

lemma argNames_append:
  "argNames rv ty (ns1 @ ns2) st =
     (case argNames rv ty ns1 st of
        None \<Rightarrow> None
      | Some (Inl r) \<Rightarrow> Some (Inl r)
      | Some (Inr st') \<Rightarrow> argNames rv ty ns2 st')"
  by (induction ns1 arbitrary: st)
     (auto split: option.split sum.split outcome.split prod.split)

lemma argFields_append:
  "argFields rv (ps1 @ ps2) st =
     (case argFields rv ps1 st of
        None \<Rightarrow> None
      | Some (Inl r) \<Rightarrow> Some (Inl r)
      | Some (Inr st') \<Rightarrow> argFields rv ps2 st')"
  by (induction ps1 arbitrary: st) (auto split: option.split sum.split)

lemma argNames_ok:
  assumes "length es = length ns" and "length sss = length ns"
    and "i + length ns \<le> length args"
    and "\<forall>j<length ns. rv (ns ! j) (IndexExpr (Ident ''args'') (BasicLit INT_tok (Itoa (i + j))))
            ty None = Some (Ret (es ! j, sss ! j, None))"
  shows "argNames rv ty ns (i, args, rs) =
     Some (Inr (i + length ns, take i args @ es @ drop (i + length ns) args, rs @ concat sss))"
  using assms
proof (induction ns arbitrary: i args rs es sss)
  case Nil
  then show ?case by simp
next
  case (Cons nm ns)
  from Cons.prems obtain e es' s sss' where es: "es = e # es'" and sss: "sss = s # sss'"
    by (cases es; cases sss) simp_all
  from Cons.prems(4) have hd: "rv nm (IndexExpr (Ident ''args'') (BasicLit INT_tok (Itoa i)))
            ty None = Some (Ret (e, s, None))"
    unfolding es sss by (auto dest: spec [of _ 0])
  have tl: "\<forall>j<length ns. rv (ns ! j)
              (IndexExpr (Ident ''args'') (BasicLit INT_tok (Itoa (Suc i + j))))
              ty None = Some (Ret (es' ! j, sss' ! j, None))"
  proof (intro allI impI)
    fix j assume "j < length ns"
    then have "Suc j < length (nm # ns)" by simp
    with Cons.prems(4) show "rv (ns ! j)
              (IndexExpr (Ident ''args'') (BasicLit INT_tok (Itoa (Suc i + j))))
              ty None = Some (Ret (es' ! j, sss' ! j, None))"
      unfolding es sss by (auto dest!: spec [of _ "Suc j"])
  qed
  from Cons.prems(3) have i: "i < length args" by simp
  have step: "argNames rv ty ns (Suc i, args[i := e], rs @ s) =
     Some (Inr (Suc i + length ns,
       take (Suc i) (args[i := e]) @ es' @ drop (Suc i + length ns) (args[i := e]),
       (rs @ s) @ concat sss'))"
    using Cons.prems(1,2,3) tl unfolding es sss by (intro Cons.IH) simp_all
  have t: "take (Suc i) (args[i := e]) = take i args @ [e]"
    using i by (simp add: take_Suc_conv_app_nth)
  have d: "drop (Suc i + length ns) (args[i := e]) = drop (Suc i + length ns) args"
    by simp
  show ?case using hd i step unfolding es sss t d by simp
qed

lemma argFields_ok:
  assumes "length es = length (namedFields params)"
    and "length sss = length (namedFields params)"
    and "i + length (namedFields params) \<le> length args"
    and "\<forall>j<length (namedFields params).
           rv (fst (namedFields params ! j))
              (IndexExpr (Ident ''args'') (BasicLit INT_tok (Itoa (i + j))))
              (snd (namedFields params ! j)) None = Some (Ret (es ! j, sss ! j, None))"
  shows "argFields rv params (i, args, rs) =
     Some (Inr (i + length (namedFields params),
                take i args @ es @ drop (i + length (namedFields params)) args,
                rs @ concat sss))"
  using assms
proof (induction params arbitrary: i args rs es sss)
  case Nil
  then show ?case by simp
next
  case (Cons f fs)
  let ?k = "length (Names f)"
  let ?m = "length (namedFields fs)"
  have len: "length (namedFields (f # fs)) = ?k + ?m" by (simp add: namedFields_Cons)
  have A: "\<forall>j<?k. rv (Names f ! j)
              (IndexExpr (Ident ''args'') (BasicLit INT_tok (Itoa (i + j))))
              (Type f) None = Some (Ret (take ?k es ! j, take ?k sss ! j, None))"
  proof (intro allI impI)
    fix j assume j: "j < ?k"
    then have "j < length (namedFields (f # fs))" using len by simp
    from Cons.prems(4) [rule_format, OF this] j
    show "rv (Names f ! j)
              (IndexExpr (Ident ''args'') (BasicLit INT_tok (Itoa (i + j))))
              (Type f) None = Some (Ret (take ?k es ! j, take ?k sss ! j, None))"
      by (simp add: namedFields_Cons nth_append)
  qed
  have B: "\<forall>j<?m. rv (fst (namedFields fs ! j))
              (IndexExpr (Ident ''args'') (BasicLit INT_tok (Itoa ((i + ?k) + j))))
              (snd (namedFields fs ! j)) None = Some (Ret (drop ?k es ! j, drop ?k sss ! j, None))"
  proof (intro allI impI)
    fix j assume j: "j < ?m"
    then have "?k + j < length (namedFields (f # fs))" using len by simp
    from Cons.prems(4) [rule_format, OF this] j Cons.prems(1,2) len
    show "rv (fst (namedFields fs ! j))
              (IndexExpr (Ident ''args'') (BasicLit INT_tok (Itoa ((i + ?k) + j))))
              (snd (namedFields fs ! j)) None = Some (Ret (drop ?k es ! j, drop ?k sss ! j, None))"
      by (simp add: namedFields_Cons nth_append add.assoc)
  qed
  have first: "argNames rv (Type f) (Names f) (i, args, rs) =
     Some (Inr (i + ?k, take i args @ take ?k es @ drop (i + ?k) args, rs @ concat (take ?k sss)))"
    using Cons.prems(1,2,3) len A by (intro argNames_ok) simp_all
  let ?args' = "take i args @ take ?k es @ drop (i + ?k) args"
  have la: "length ?args' = length args"
    using Cons.prems(1,3) len by simp
  have second: "argFields rv fs (i + ?k, ?args', rs @ concat (take ?k sss)) =
     Some (Inr ((i + ?k) + ?m,
                take (i + ?k) ?args' @ drop ?k es @ drop ((i + ?k) + ?m) ?args',
                (rs @ concat (take ?k sss)) @ concat (drop ?k sss)))"
    using Cons.prems(1,2,3) len B la by (intro Cons.IH) simp_all
  have t: "take (i + ?k) ?args' = take i args @ take ?k es"
    using Cons.prems(1,3) len by simp
  have d: "drop ((i + ?k) + ?m) ?args' = drop (i + (?k + ?m)) args"
    using Cons.prems(1,3) len by (simp add: ac_simps)
  have c: "concat (take ?k sss) @ concat (drop ?k sss) = concat sss"
    by (metis append_take_drop_id concat_append)
  have e: "take ?k es @ drop ?k es = es" by simp
  show ?case
    using first second unfolding t d len by (simp add: c add.assoc)
qed

lemma namedFields_le_NumFields: "length (namedFields params) \<le> NumFields params"
  by (induction params) (simp_all add: namedFields_Cons)

lemma resolveFuncArgs_ok:
  assumes "length es = length (namedFields params)"
    and "length sss = length (namedFields params)"
    and "\<forall>j<length (namedFields params).
           ResolveValue gen n (fst (namedFields params ! j))
              (IndexExpr (Ident ''args'') (BasicLit INT_tok (Itoa j)))
              (snd (namedFields params ! j)) None = Some (Ret (es ! j, sss ! j, None))"
  shows "resolveFuncArgs gen n params =
     Some (Ret (es @ replicate (NumFields params - length (namedFields params)) None,
                concat sss, None))"
proof -
  have "argFields (ResolveValue gen n) params (0, replicate (NumFields params) None, []) =
     Some (Inr (0 + length (namedFields params),
                take 0 (replicate (NumFields params) None) @ es @
                  drop (0 + length (namedFields params)) (replicate (NumFields params) None),
                [] @ concat sss))"
    using assms namedFields_le_NumFields [of params] by (intro argFields_ok) simp_all
  then show ?thesis by (simp add: resolveFuncArgs_def)
qed

lemma resolveFuncArgs_err:
  assumes "length es = length (namedFields ps1 @ map (\<lambda>nm. (nm, ty)) ns1)"
    and "length sss = length (namedFields ps1 @ map (\<lambda>nm. (nm, ty)) ns1)"
    and "\<forall>j<length (namedFields ps1 @ map (\<lambda>nm. (nm, ty)) ns1).
           ResolveValue gen n (fst ((namedFields ps1 @ map (\<lambda>nm. (nm, ty)) ns1) ! j))
              (IndexExpr (Ident ''args'') (BasicLit INT_tok (Itoa j)))
              (snd ((namedFields ps1 @ map (\<lambda>nm. (nm, ty)) ns1) ! j)) None =
             Some (Ret (es ! j, sss ! j, None))"
    and bad: "ResolveValue gen n nm
              (IndexExpr (Ident ''args'')
                 (BasicLit INT_tok (Itoa (length (namedFields ps1) + length ns1))))
              ty None = Some (Ret (e, ss, Some err))"
  shows "resolveFuncArgs gen n (ps1 @ Field (ns1 @ nm # ns2) ty # ps2) =
           Some (Ret ([], [], Some (UnresolvedArgument nm ty err)))"
proof -
  let ?rv = "ResolveValue gen n"
  let ?all = "ps1 @ Field (ns1 @ nm # ns2) ty # ps2"
  let ?a0 = "replicate (NumFields ?all) (None :: expr option)"
  let ?k = "length (namedFields ps1)"
  have N: "?k + length ns1 < NumFields ?all"
    using namedFields_le_NumFields [of "ps1 @ Field (ns1 @ nm # ns2) ty # ps2"]
    by (simp add: namedFields_append namedFields_Cons)
  have A: "\<forall>j<?k. ?rv (fst (namedFields ps1 ! j))
              (IndexExpr (Ident ''args'') (BasicLit INT_tok (Itoa (0 + j))))
              (snd (namedFields ps1 ! j)) None = Some (Ret (take ?k es ! j, take ?k sss ! j, None))"
  proof (intro allI impI)
    fix j assume j: "j < ?k"
    then have "j < length (namedFields ps1 @ map (\<lambda>nm. (nm, ty)) ns1)" by simp
    from assms(3) [rule_format, OF this] j
    show "?rv (fst (namedFields ps1 ! j))
              (IndexExpr (Ident ''args'') (BasicLit INT_tok (Itoa (0 + j))))
              (snd (namedFields ps1 ! j)) None = Some (Ret (take ?k es ! j, take ?k sss ! j, None))"
      by (simp add: nth_append)
  qed
  have B: "\<forall>j<length ns1. ?rv (ns1 ! j)
              (IndexExpr (Ident ''args'') (BasicLit INT_tok (Itoa (?k + j))))
              ty None = Some (Ret (drop ?k es ! j, drop ?k sss ! j, None))"
  proof (intro allI impI)
    fix j assume j: "j < length ns1"
    then have "?k + j < length (namedFields ps1 @ map (\<lambda>nm. (nm, ty)) ns1)" by simp
    from assms(3) [rule_format, OF this] j assms(1,2)
    show "?rv (ns1 ! j)
              (IndexExpr (Ident ''args'') (BasicLit INT_tok (Itoa (?k + j))))
              ty None = Some (Ret (drop ?k es ! j, drop ?k sss ! j, None))"
      by (simp add: nth_append)
  qed
  have first: "argFields ?rv ps1 (0, ?a0, []) =
     Some (Inr (0 + ?k, take 0 ?a0 @ take ?k es @ drop (0 + ?k) ?a0, [] @ concat (take ?k sss)))"
    using assms(1,2) N A by (intro argFields_ok) simp_all
  let ?a1 = "take 0 ?a0 @ take ?k es @ drop (0 + ?k) ?a0"
  have la: "length ?a1 = NumFields ?all" using assms(1) N by simp
  have second: "argNames ?rv ty ns1 (?k, ?a1, concat (take ?k sss)) =
     Some (Inr (?k + length ns1, take ?k ?a1 @ drop ?k es @ drop (?k + length ns1) ?a1,
                concat (take ?k sss) @ concat (drop ?k sss)))"
    using assms(1,2) N B la by (intro argNames_ok) simp_all
  let ?a2 = "take ?k ?a1 @ drop ?k es @ drop (?k + length ns1) ?a1"
  have lb: "?k + length ns1 < length ?a2" using assms(1) N by simp
  have third: "argNames ?rv ty (nm # ns2) (?k + length ns1, ?a2,
                 concat (take ?k sss) @ concat (drop ?k sss)) =
               Some (Inl (Ret ([], [], Some (UnresolvedArgument nm ty err))))"
    using bad lb by simp
  show ?thesis
    using first second third
    by (simp add: resolveFuncArgs_def argFields_append argNames_append del: argNames.simps)
qed

section \<open>Shapes that cannot reach the fatal branch\<close>

lemma handledField_Type: "handledField f = handled (Type f)"
  by (cases f) simp

lemma resolvePointer_no_panic:
  assumes "\<And>nm j d. rv nm j x d \<noteq> Some (Panic p)"
  shows "resolvePointer rv name jsValue x dst \<noteq> Some (Panic p)"
  using assms
  by (auto simp add: resolvePointer_def
        split: option.split outcome.split prod.split)

lemma resolveArray_no_panic:
  assumes "\<And>nm j d. rv nm j elt d \<noteq> Some (Panic p)"
  shows "resolveArray rv name jsValue len elt dst \<noteq> Some (Panic p)"
  using assms
  by (auto simp add: resolveArray_def Let_def
        split: option.split outcome.split prod.split)

lemma structNames_no_panic:
  assumes "\<And>nm j d. rv nm j ty d \<noteq> Some (Panic p)"
  shows "structNames rv name jsValue d' ty ns acc \<noteq> Some (Inl (Panic p))"
  using assms
  by (induction ns arbitrary: acc)
     (auto split: option.split outcome.split prod.split)

lemma structFields_no_panic:
  assumes "\<And>f nm j d. f \<in> set fs \<Longrightarrow> rv nm j (Type f) d \<noteq> Some (Panic p)"
  shows "structFields rv name jsValue d' fs acc \<noteq> Some (Inl (Panic p))"
  using assms
proof (induction fs arbitrary: acc)
  case Nil
  then show ?case by simp
next
  case (Cons f fs)
  have "structNames rv name jsValue d' (Type f) (Names f) acc \<noteq> Some (Inl (Panic p))"
    by (rule structNames_no_panic) (simp add: Cons.prems)
  moreover have "\<And>acc'. structFields rv name jsValue d' fs acc' \<noteq> Some (Inl (Panic p))"
    by (rule Cons.IH) (simp add: Cons.prems)
  ultimately show ?case by (auto split: option.split sum.split)
qed

lemma resolveStruct_no_panic:
  assumes "\<And>f nm j d. f \<in> set fs \<Longrightarrow> rv nm j (Type f) d \<noteq> Some (Panic p)"
  shows "resolveStruct rv name jsValue fs dst \<noteq> Some (Panic p)"
  using structFields_no_panic [of fs rv p, OF assms]
  by (auto simp add: resolveStruct_def split: option.split sum.split)

lemma resolveIdent_no_panic:
  assumes "\<And>t nm j d. gen typeStr = Some t \<Longrightarrow> rv nm j t d \<noteq> Some (Panic p)"
  shows "resolveIdent gen rv name jsValue typeStr dst \<noteq> Some (Panic p)"
  using assms
  by (auto simp add: resolveIdent_def getTypeAlias_def Let_def split: option.split)

lemma ResolveValue_no_panic:
  assumes tbl: "\<forall>a t. gen a = Some t \<longrightarrow> handled t"
  shows "handled nativeType \<Longrightarrow> ResolveValue gen n name jsValue nativeType dst \<noteq> Some (Panic p)"
proof (induction n arbitrary: name jsValue nativeType dst)
  case 0
  then show ?case by simp
next
  case (Suc n)
  show ?case
  proof (cases nativeType)
    case (Ident t)
    show ?thesis unfolding Ident ResolveValue_Ident
      by (rule resolveIdent_no_panic) (use tbl Suc.IH in blast)
  next
    case (StarExpr x)
    with Suc.prems have "handled x" by simp
    then show ?thesis unfolding StarExpr ResolveValue_StarExpr
      by (intro resolvePointer_no_panic Suc.IH)
  next
    case (ArrayType len elt)
    with Suc.prems have "handled elt" by simp
    then show ?thesis unfolding ArrayType ResolveValue_ArrayType
      by (intro resolveArray_no_panic Suc.IH)
  next
    case (StructType fs)
    with Suc.prems have "\<And>f. f \<in> set fs \<Longrightarrow> handled (Type f)"
      by (simp add: handledField_Type)
    then show ?thesis unfolding StructType ResolveValue_StructType
      by (intro resolveStruct_no_panic Suc.IH)
  qed (use Suc.prems in simp_all)
qed

section \<open>The claims about pointers, sequences, records and argument lists\<close>

text \<open>
  C2. Resolving \<^verbatim>\<open>*int\<close> from \<^verbatim>\<open>src\<close> under the name \<^verbatim>\<open>p\<close> without a destination emits
  the declaration \<^verbatim>\<open>var p *int\<close> and one guarded block, and nothing else: no statement
  allocates the pointee. The guarded block assigns \<^verbatim>\<open>src.Int()\<close> to \<^verbatim>\<open>p\<close> itself; it is
  not the resolution of \<^verbatim>\<open>int\<close> against the dereferenced destination \<^verbatim>\<open>*p\<close>, which would
  assign to \<^verbatim>\<open>*p\<close>.
\<close>

theorem pointer_destination_not_dereferenced:
  "ResolveValue Map.empty 2 ''p'' (Ident ''src'') (StarExpr (Ident ''int'')) None =
     Some (Ret (Some (Ident ''p''),
       [DeclStmt (GenDecl VAR [ValueSpec [''p''] (StarExpr (Ident ''int''))]),
        IfStmt
          (AssignStmt [Ident ''jsType''] DEFINE
             [CallExpr (SelectorExpr (Ident ''src'') ''Type'') []])
          (BinaryExpr
             (BinaryExpr (Ident ''jsType'') NEQ (SelectorExpr (Ident ''js'') ''TypeUndefined''))
             LOR
             (BinaryExpr (Ident ''jsType'') NEQ (SelectorExpr (Ident ''js'') ''TypeNull'')))
          [AssignStmt [Ident ''p''] ASSIGN [CallExpr (SelectorExpr (Ident ''src'') ''Int'') []]]],
       None)) \<and>
   stmtsOf (ResolveValue Map.empty 1 ''pElt'' (Ident ''src'') (Ident ''int'')
              (Some (StarExpr (Ident ''p'')))) =
     [AssignStmt [StarExpr (Ident ''p'')] ASSIGN
        [CallExpr (SelectorExpr (Ident ''src'') ''Int'') []]] \<and>
   ResolveValue Map.empty 2 ''p'' (Ident ''src'') (StarExpr (Ident ''int'')) None \<noteq>
     Some (Ret (Some (Ident ''p''),
       [DeclStmt (GenDecl VAR [ValueSpec [''p''] (StarExpr (Ident ''int''))]),
        IfStmt
          (AssignStmt [Ident ''jsType''] DEFINE
             [CallExpr (SelectorExpr (Ident ''src'') ''Type'') []])
          (BinaryExpr
             (BinaryExpr (Ident ''jsType'') NEQ (SelectorExpr (Ident ''js'') ''TypeUndefined''))
             LOR
             (BinaryExpr (Ident ''jsType'') NEQ (SelectorExpr (Ident ''js'') ''TypeNull'')))
          (stmtsOf (ResolveValue Map.empty 1 ''pElt'' (Ident ''src'') (Ident ''int'')
                      (Some (StarExpr (Ident ''p'')))))],
       None))"
  by (simp add: numeral_2_eq_2 resolvePointer_def resolveIdent_def stmtsOf_def)

text \<open>
  C3. When the element shape resolves, a sequence resolves to its destination and to the
  following statements. With a fixed length there is no length query and the bound of the
  loop is the length expression itself, also when that is the literal \<open>0\<close>. With a dynamic
  length the first statement binds \<open>name\<close> followed by \<open>Len\<close> to the \<open>Length\<close> of the source
  and that identifier is the bound. Without a destination one allocation follows
  (\<^verbatim>\<open>make\<close> for a dynamic length, a \<^verbatim>\<open>var\<close> declaration for a fixed one). The last statement
  is the one loop: counter defined as \<open>0\<close>, condition counter \<open><\<close> bound, increment, and the
  element's statements as body.
\<close>

theorem sequence_length_dispatch:
  assumes "ResolveValue gen n (name @ ''Elt'')
             (CallExpr (SelectorExpr jsValue ''Index'') [Ident (name @ ''Idx'')]) elt
             (Some (IndexExpr (case dst of None \<Rightarrow> Ident name | Some d \<Rightarrow> d)
                      (Ident (name @ ''Idx'')))) =
           Some (Ret (e, body, None))"
  shows "ResolveValue gen (Suc n) name jsValue (ArrayType len elt) dst =
     Some (Ret (Some (case dst of None \<Rightarrow> Ident name | Some d \<Rightarrow> d),
       (case len of
          None \<Rightarrow> [AssignStmt [Ident (name @ ''Len'')] DEFINE
                     [CallExpr (SelectorExpr jsValue ''Length'') []]]
        | Some l \<Rightarrow> []) @
       (case dst of
          Some d \<Rightarrow> []
        | None \<Rightarrow>
            (case len of
               None \<Rightarrow> [AssignStmt [Ident name] DEFINE
                          [CallExpr (Ident ''make'') [ArrayType None elt, Ident (name @ ''Len'')]]]
             | Some l \<Rightarrow> [DeclStmt (GenDecl VAR [ValueSpec [name] (ArrayType (Some l) elt)])])) @
       [ForStmt
          (AssignStmt [Ident (name @ ''Idx'')] DEFINE [BasicLit INT_tok ''0''])
          (BinaryExpr (Ident (name @ ''Idx'')) LSS
             (case len of None \<Rightarrow> Ident (name @ ''Len'') | Some l \<Rightarrow> l))
          (IncDecStmt (Ident (name @ ''Idx'')) INC)
          body],
       None))"
  using resolveArray_ok [where rv = "ResolveValue gen n", OF assms] by simp

theorem sequence_length_dispatch_witness:
  "ResolveValue Map.empty (Suc 0) (''xs'' @ ''Elt'')
       (CallExpr (SelectorExpr (Ident ''src'') ''Index'') [Ident (''xs'' @ ''Idx'')])
       (Ident ''string'')
       (Some (IndexExpr (case None of None \<Rightarrow> Ident ''xs'' | Some d \<Rightarrow> d)
                (Ident (''xs'' @ ''Idx'')))) =
     Some (Ret (Some (IndexExpr (Ident ''xs'') (Ident ''xsIdx'')),
       [AssignStmt [IndexExpr (Ident ''xs'') (Ident ''xsIdx'')] ASSIGN
          [CallExpr (SelectorExpr
             (CallExpr (SelectorExpr (Ident ''src'') ''Index'') [Ident ''xsIdx'']) ''String'') []]],
       None)) \<and>
   ResolveValue Map.empty (Suc (Suc 0)) ''xs'' (Ident ''src'')
       (ArrayType (Some (BasicLit INT_tok ''0'')) (Ident ''string'')) None =
     Some (Ret (Some (Ident ''xs''),
       [DeclStmt (GenDecl VAR
          [ValueSpec [''xs''] (ArrayType (Some (BasicLit INT_tok ''0'')) (Ident ''string''))]),
        ForStmt
          (AssignStmt [Ident ''xsIdx''] DEFINE [BasicLit INT_tok ''0''])
          (BinaryExpr (Ident ''xsIdx'') LSS (BasicLit INT_tok ''0''))
          (IncDecStmt (Ident ''xsIdx'') INC)
          [AssignStmt [IndexExpr (Ident ''xs'') (Ident ''xsIdx'')] ASSIGN
             [CallExpr (SelectorExpr
                (CallExpr (SelectorExpr (Ident ''src'') ''Index'') [Ident ''xsIdx''])
                ''String'') []]]],
       None)) \<and>
   ResolveValue Map.empty (Suc (Suc 0)) ''xs'' (Ident ''src'')
       (ArrayType None (Ident ''string'')) None =
     Some (Ret (Some (Ident ''xs''),
       [AssignStmt [Ident ''xsLen''] DEFINE
          [CallExpr (SelectorExpr (Ident ''src'') ''Length'') []],
        AssignStmt [Ident ''xs''] DEFINE
          [CallExpr (Ident ''make'') [ArrayType None (Ident ''string''), Ident ''xsLen'']],
        ForStmt
          (AssignStmt [Ident ''xsIdx''] DEFINE [BasicLit INT_tok ''0''])
          (BinaryExpr (Ident ''xsIdx'') LSS (Ident ''xsLen''))
          (IncDecStmt (Ident ''xsIdx'') INC)
          [AssignStmt [IndexExpr (Ident ''xs'') (Ident ''xsIdx'')] ASSIGN
             [CallExpr (SelectorExpr
                (CallExpr (SelectorExpr (Ident ''src'') ''Index'') [Ident ''xsIdx''])
                ''String'') []]]],
       None))"
proof -
  have h: "ResolveValue Map.empty (Suc 0) (''xs'' @ ''Elt'')
       (CallExpr (SelectorExpr (Ident ''src'') ''Index'') [Ident (''xs'' @ ''Idx'')])
       (Ident ''string'')
       (Some (IndexExpr (case None of None \<Rightarrow> Ident ''xs'' | Some d \<Rightarrow> d)
                (Ident (''xs'' @ ''Idx'')))) =
     Some (Ret (Some (IndexExpr (Ident ''xs'') (Ident ''xsIdx'')),
       [AssignStmt [IndexExpr (Ident ''xs'') (Ident ''xsIdx'')] ASSIGN
          [CallExpr (SelectorExpr
             (CallExpr (SelectorExpr (Ident ''src'') ''Index'') [Ident ''xsIdx'']) ''String'') []]],
       None))"
    by (simp add: resolveIdent_def)
  show ?thesis
    using h sequence_length_dispatch [OF h, where len = "Some (BasicLit INT_tok ''0'')"]
      sequence_length_dispatch [OF h, where len = None]
    by simp
qed

text \<open>
  C4. When every named entry of a record resolves (entry \<open>j\<close> with the source
  \<^verbatim>\<open>jsValue.Get(field)\<close>, the destination \<^verbatim>\<open>dst.field\<close> and the statements \<open>sss ! j\<close>), the
  record resolves to its destination and to the concatenation of those statements in
  declaration order, whatever the field types are; without a destination the first
  statement defines \<open>name\<close> as an empty composite literal of the record type and \<open>name\<close> is
  the destination.
\<close>

theorem record_fields_in_order:
  assumes "length sss = length (namedFields fields)"
    and "\<forall>j<length (namedFields fields). \<exists>e.
           ResolveValue gen n (name @ fst (namedFields fields ! j))
             (CallExpr (SelectorExpr jsValue ''Get'') [Ident (fst (namedFields fields ! j))])
             (snd (namedFields fields ! j))
             (Some (SelectorExpr (case dst of None \<Rightarrow> Ident name | Some d \<Rightarrow> d)
                      (fst (namedFields fields ! j)))) =
           Some (Ret (e, sss ! j, None))"
  shows "ResolveValue gen (Suc n) name jsValue (StructType fields) dst =
     Some (Ret (Some (case dst of None \<Rightarrow> Ident name | Some d \<Rightarrow> d),
       (case dst of
          None \<Rightarrow> [AssignStmt [Ident name] DEFINE [CompositeLit (StructType fields)]]
        | Some d \<Rightarrow> []) @ concat sss,
       None))"
proof -
  have "list_all2 (\<lambda>p ss. \<exists>e. ResolveValue gen n (name @ fst p)
              (CallExpr (SelectorExpr jsValue ''Get'') [Ident (fst p)]) (snd p)
              (Some (SelectorExpr (case dst of None \<Rightarrow> Ident name | Some d \<Rightarrow> d) (fst p))) =
                Some (Ret (e, ss, None)))
            (namedFields fields) sss"
    using assms by (simp add: list_all2_conv_all_nth)
  from resolveStruct_ok [where rv = "ResolveValue gen n", OF this] show ?thesis by simp
qed

theorem record_fields_in_order_witness:
  "length [[AssignStmt [SelectorExpr (Ident ''r'') ''A''] ASSIGN
              [CallExpr (SelectorExpr
                 (CallExpr (SelectorExpr (Ident ''src'') ''Get'') [Ident ''A'']) ''Bool'') []]],
           [AssignStmt [SelectorExpr (Ident ''r'') ''B''] ASSIGN
              [CallExpr (SelectorExpr
                 (CallExpr (SelectorExpr (Ident ''src'') ''Get'') [Ident ''B'']) ''String'') []]],
           [AssignStmt [SelectorExpr (Ident ''r'') ''C''] ASSIGN
              [CallExpr (SelectorExpr
                 (CallExpr (SelectorExpr (Ident ''src'') ''Get'') [Ident ''C'']) ''String'') []]]] =
     length (namedFields [Field [''A''] (Ident ''bool''), Field [] (Ident ''Base''),
                          Field [''B'', ''C''] (Ident ''string'')]) \<and>
   ResolveValue Map.empty (Suc (Suc 0)) ''r'' (Ident ''src'')
       (StructType [Field [''A''] (Ident ''bool''), Field [] (Ident ''Base''),
                    Field [''B'', ''C''] (Ident ''string'')]) None =
     Some (Ret (Some (Ident ''r''),
       [AssignStmt [Ident ''r''] DEFINE
          [CompositeLit (StructType [Field [''A''] (Ident ''bool''), Field [] (Ident ''Base''),
                                     Field [''B'', ''C''] (Ident ''string'')])],
        AssignStmt [SelectorExpr (Ident ''r'') ''A''] ASSIGN
          [CallExpr (SelectorExpr
             (CallExpr (SelectorExpr (Ident ''src'') ''Get'') [Ident ''A'']) ''Bool'') []],
        AssignStmt [SelectorExpr (Ident ''r'') ''B''] ASSIGN
          [CallExpr (SelectorExpr
             (CallExpr (SelectorExpr (Ident ''src'') ''Get'') [Ident ''B'']) ''String'') []],
        AssignStmt [SelectorExpr (Ident ''r'') ''C''] ASSIGN
          [CallExpr (SelectorExpr
             (CallExpr (SelectorExpr (Ident ''src'') ''Get'') [Ident ''C'']) ''String'') []]],
       None))"
proof -
  let ?fs = "[Field [''A''] (Ident ''bool''), Field [] (Ident ''Base''),
              Field [''B'', ''C''] (Ident ''string'')]"
  let ?sss = "[[AssignStmt [SelectorExpr (Ident ''r'') ''A''] ASSIGN
              [CallExpr (SelectorExpr
                 (CallExpr (SelectorExpr (Ident ''src'') ''Get'') [Ident ''A'']) ''Bool'') []]],
           [AssignStmt [SelectorExpr (Ident ''r'') ''B''] ASSIGN
              [CallExpr (SelectorExpr
                 (CallExpr (SelectorExpr (Ident ''src'') ''Get'') [Ident ''B'']) ''String'') []]],
           [AssignStmt [SelectorExpr (Ident ''r'') ''C''] ASSIGN
              [CallExpr (SelectorExpr
                 (CallExpr (SelectorExpr (Ident ''src'') ''Get'') [Ident ''C'']) ''String'') []]]]"
  have nf: "namedFields ?fs =
      [(''A'', Ident ''bool''), (''B'', Ident ''string''), (''C'', Ident ''string'')]"
    by (simp add: namedFields_def)
  have l: "length ?sss = length (namedFields ?fs)" unfolding nf by simp
  have h: "\<forall>j<length (namedFields ?fs). \<exists>e.
           ResolveValue Map.empty (Suc 0) (''r'' @ fst (namedFields ?fs ! j))
             (CallExpr (SelectorExpr (Ident ''src'') ''Get'') [Ident (fst (namedFields ?fs ! j))])
             (snd (namedFields ?fs ! j))
             (Some (SelectorExpr (case None of None \<Rightarrow> Ident ''r'' | Some d \<Rightarrow> d)
                      (fst (namedFields ?fs ! j)))) =
           Some (Ret (e, ?sss ! j, None))"
    unfolding nf by (simp add: All_less_Suc resolveIdent_def)
  show ?thesis
    using l record_fields_in_order [OF l h] by simp
qed

lemma NumFields_named:
  "\<forall>f \<in> set params. Names f \<noteq> [] \<Longrightarrow> NumFields params = length (namedFields params)"
  by (induction params) (simp_all add: namedFields_Cons)

text \<open>
  C5. When the \<open>j\<close>-th named parameter resolves from \<^verbatim>\<open>args[j]\<close> with no destination to the
  expression \<open>es ! j\<close> and the statements \<open>sss ! j\<close>, for every \<open>j\<close>, the driver returns the
  expressions in that order and the statements block after block in that order. Slots of
  entries without a name stay \<^verbatim>\<open>nil\<close> at the end of the list; when every entry has a name
  the list is exactly \<open>es\<close>.
\<close>

theorem argument_positions:
  assumes "length es = length (namedFields params)"
    and "length sss = length (namedFields params)"
    and "\<forall>j<length (namedFields params).
           ResolveValue gen n (fst (namedFields params ! j))
              (IndexExpr (Ident ''args'') (BasicLit INT_tok (Itoa j)))
              (snd (namedFields params ! j)) None = Some (Ret (es ! j, sss ! j, None))"
  shows "resolveFuncArgs gen n params =
           Some (Ret (es @ replicate (NumFields params - length (namedFields params)) None,
                      concat sss, None)) \<and>
         ((\<forall>f \<in> set params. Names f \<noteq> []) \<longrightarrow>
            resolveFuncArgs gen n params = Some (Ret (es, concat sss, None)))"
  using resolveFuncArgs_ok [OF assms] NumFields_named [of params] by simp

theorem argument_positions_witness:
  "length [Some (CallExpr (SelectorExpr (IndexExpr (Ident ''args'') (BasicLit INT_tok ''0''))
                   ''Bool'') []),
           Some (Ident ''y'')] =
     length (namedFields [Field [''x''] (Ident ''bool''), Field [''y''] (StarExpr (Ident ''string''))]) \<and>
   resolveFuncArgs Map.empty (Suc (Suc 0))
       [Field [''x''] (Ident ''bool''), Field [''y''] (StarExpr (Ident ''string''))] =
     Some (Ret (
       [Some (CallExpr (SelectorExpr (IndexExpr (Ident ''args'') (BasicLit INT_tok ''0''))
                ''Bool'') []),
        Some (Ident ''y'')],
       [DeclStmt (GenDecl VAR [ValueSpec [''y''] (StarExpr (Ident ''string''))]),
        IfStmt
          (AssignStmt [Ident ''jsType''] DEFINE
             [CallExpr (SelectorExpr (IndexExpr (Ident ''args'') (BasicLit INT_tok ''1''))
                ''Type'') []])
          (BinaryExpr
             (BinaryExpr (Ident ''jsType'') NEQ (SelectorExpr (Ident ''js'') ''TypeUndefined''))
             LOR
             (BinaryExpr (Ident ''jsType'') NEQ (SelectorExpr (Ident ''js'') ''TypeNull'')))
          [AssignStmt [Ident ''y''] ASSIGN
             [CallExpr (SelectorExpr (IndexExpr (Ident ''args'') (BasicLit INT_tok ''1''))
                ''String'') []]]],
       None))"
proof -
  let ?ps = "[Field [''x''] (Ident ''bool''), Field [''y''] (StarExpr (Ident ''string''))]"
  let ?es = "[Some (CallExpr (SelectorExpr (IndexExpr (Ident ''args'') (BasicLit INT_tok ''0''))
                   ''Bool'') []),
              Some (Ident ''y'')]"
  let ?sss = "[[],
       [DeclStmt (GenDecl VAR [ValueSpec [''y''] (StarExpr (Ident ''string''))]),
        IfStmt
          (AssignStmt [Ident ''jsType''] DEFINE
             [CallExpr (SelectorExpr (IndexExpr (Ident ''args'') (BasicLit INT_tok ''1''))
                ''Type'') []])
          (BinaryExpr
             (BinaryExpr (Ident ''jsType'') NEQ (SelectorExpr (Ident ''js'') ''TypeUndefined''))
             LOR
             (BinaryExpr (Ident ''jsType'') NEQ (SelectorExpr (Ident ''js'') ''TypeNull'')))
          [AssignStmt [Ident ''y''] ASSIGN
             [CallExpr (SelectorExpr (IndexExpr (Ident ''args'') (BasicLit INT_tok ''1''))
                ''String'') []]]]]"
  have nf: "namedFields ?ps = [(''x'', Ident ''bool''), (''y'', StarExpr (Ident ''string''))]"
    by (simp add: namedFields_def)
  have l1: "length ?es = length (namedFields ?ps)" unfolding nf by simp
  have l2: "length ?sss = length (namedFields ?ps)" unfolding nf by simp
  have named: "\<forall>f \<in> set ?ps. Names f \<noteq> []" by simp
  have h: "\<forall>j<length (namedFields ?ps).
           ResolveValue Map.empty (Suc (Suc 0)) (fst (namedFields ?ps ! j))
              (IndexExpr (Ident ''args'') (BasicLit INT_tok (Itoa j)))
              (snd (namedFields ?ps ! j)) None = Some (Ret (?es ! j, ?sss ! j, None))"
    unfolding nf
    by (simp add: All_less_Suc resolveIdent_def resolvePointer_def Itoa.simps)
  show ?thesis
    using l1 named argument_positions [OF l1 l2 h] by simp
qed

text \<open>
  C7. When the child of a pointer, of a sequence, of a record (the first field that fails,
  those before it having resolved) or of an argument list (the first parameter that fails)
  returns an error, the composite returns no expression, no statement, and the child's
  error wrapped with the role of the child and the child's shape (for a parameter also its
  name).
\<close>

theorem child_failure_wrapped:
  "(ResolveValue gen n (name @ ''Elt'') jsValue x
        (Some (case dst of None \<Rightarrow> Ident name | Some d \<Rightarrow> d)) = Some (Ret (e, body, Some err)) \<longrightarrow>
      ResolveValue gen (Suc n) name jsValue (StarExpr x) dst =
        Some (Ret (None, [], Some (UnresolvedPointerElement x err)))) \<and>
   (ResolveValue gen n (name @ ''Elt'')
        (CallExpr (SelectorExpr jsValue ''Index'') [Ident (name @ ''Idx'')]) x
        (Some (IndexExpr (case dst of None \<Rightarrow> Ident name | Some d \<Rightarrow> d)
                 (Ident (name @ ''Idx'')))) = Some (Ret (e, body, Some err)) \<longrightarrow>
      ResolveValue gen (Suc n) name jsValue (ArrayType len x) dst =
        Some (Ret (None, [], Some (UnresolvedArrayElement x err)))) \<and>
   (length sss = length (namedFields fsPre @ map (\<lambda>fieldName. (fieldName, x)) nsPre) \<and>
    (\<forall>j<length (namedFields fsPre @ map (\<lambda>fieldName. (fieldName, x)) nsPre). \<exists>e'.
        ResolveValue gen n
          (name @ fst ((namedFields fsPre @ map (\<lambda>fieldName. (fieldName, x)) nsPre) ! j))
          (CallExpr (SelectorExpr jsValue ''Get'')
             [Ident (fst ((namedFields fsPre @ map (\<lambda>fieldName. (fieldName, x)) nsPre) ! j))])
          (snd ((namedFields fsPre @ map (\<lambda>fieldName. (fieldName, x)) nsPre) ! j))
          (Some (SelectorExpr (case dst of None \<Rightarrow> Ident name | Some d \<Rightarrow> d)
                   (fst ((namedFields fsPre @ map (\<lambda>fieldName. (fieldName, x)) nsPre) ! j)))) =
        Some (Ret (e', sss ! j, None))) \<and>
    ResolveValue gen n (name @ fieldName)
        (CallExpr (SelectorExpr jsValue ''Get'') [Ident fieldName]) x
        (Some (SelectorExpr (case dst of None \<Rightarrow> Ident name | Some d \<Rightarrow> d) fieldName)) =
      Some (Ret (e, body, Some err)) \<longrightarrow>
      ResolveValue gen (Suc n) name jsValue
          (StructType (fsPre @ Field (nsPre @ fieldName # nsPost) x # fsPost)) dst =
        Some (Ret (None, [], Some (UnresolvedStructField x err)))) \<and>
   (length es = length (namedFields psPre @ map (\<lambda>nm. (nm, x)) msPre) \<and>
    length tss = length (namedFields psPre @ map (\<lambda>nm. (nm, x)) msPre) \<and>
    (\<forall>j<length (namedFields psPre @ map (\<lambda>nm. (nm, x)) msPre).
        ResolveValue gen n (fst ((namedFields psPre @ map (\<lambda>nm. (nm, x)) msPre) ! j))
          (IndexExpr (Ident ''args'') (BasicLit INT_tok (Itoa j)))
          (snd ((namedFields psPre @ map (\<lambda>nm. (nm, x)) msPre) ! j)) None =
        Some (Ret (es ! j, tss ! j, None))) \<and>
    ResolveValue gen n param
        (IndexExpr (Ident ''args'')
           (BasicLit INT_tok (Itoa (length (namedFields psPre) + length msPre))))
        x None = Some (Ret (e, body, Some err)) \<longrightarrow>
      resolveFuncArgs gen n (psPre @ Field (msPre @ param # msPost) x # psPost) =
        Some (Ret ([], [], Some (UnresolvedArgument param x err))))"
proof (intro conjI impI)
  assume "ResolveValue gen n (name @ ''Elt'') jsValue x
        (Some (case dst of None \<Rightarrow> Ident name | Some d \<Rightarrow> d)) = Some (Ret (e, body, Some err))"
  from resolvePointer_err [where rv = "ResolveValue gen n", OF this]
  show "ResolveValue gen (Suc n) name jsValue (StarExpr x) dst =
        Some (Ret (None, [], Some (UnresolvedPointerElement x err)))" by simp
next
  assume "ResolveValue gen n (name @ ''Elt'')
        (CallExpr (SelectorExpr jsValue ''Index'') [Ident (name @ ''Idx'')]) x
        (Some (IndexExpr (case dst of None \<Rightarrow> Ident name | Some d \<Rightarrow> d)
                 (Ident (name @ ''Idx'')))) = Some (Ret (e, body, Some err))"
  from resolveArray_err [where rv = "ResolveValue gen n", OF this]
  show "ResolveValue gen (Suc n) name jsValue (ArrayType len x) dst =
        Some (Ret (None, [], Some (UnresolvedArrayElement x err)))" by simp
next
  let ?pre = "namedFields fsPre @ map (\<lambda>fieldName. (fieldName, x)) nsPre"
  assume a: "length sss = length ?pre \<and>
    (\<forall>j<length ?pre. \<exists>e'.
        ResolveValue gen n (name @ fst (?pre ! j))
          (CallExpr (SelectorExpr jsValue ''Get'') [Ident (fst (?pre ! j))])
          (snd (?pre ! j))
          (Some (SelectorExpr (case dst of None \<Rightarrow> Ident name | Some d \<Rightarrow> d)
                   (fst (?pre ! j)))) =
        Some (Ret (e', sss ! j, None))) \<and>
    ResolveValue gen n (name @ fieldName)
        (CallExpr (SelectorExpr jsValue ''Get'') [Ident fieldName]) x
        (Some (SelectorExpr (case dst of None \<Rightarrow> Ident name | Some d \<Rightarrow> d) fieldName)) =
      Some (Ret (e, body, Some err))"
  then have pre: "list_all2 (\<lambda>p ss. \<exists>e. ResolveValue gen n (name @ fst p)
              (CallExpr (SelectorExpr jsValue ''Get'') [Ident (fst p)]) (snd p)
              (Some (SelectorExpr (case dst of None \<Rightarrow> Ident name | Some d \<Rightarrow> d) (fst p))) =
                 Some (Ret (e, ss, None))) ?pre sss"
    unfolding list_all2_conv_all_nth by simp
  from a have bad: "ResolveValue gen n (name @ fieldName)
        (CallExpr (SelectorExpr jsValue ''Get'') [Ident fieldName]) x
        (Some (SelectorExpr (case dst of None \<Rightarrow> Ident name | Some d \<Rightarrow> d) fieldName)) =
      Some (Ret (e, body, Some err))" by simp
  from resolveStruct_err [where rv = "ResolveValue gen n", OF pre bad]
  show "ResolveValue gen (Suc n) name jsValue
          (StructType (fsPre @ Field (nsPre @ fieldName # nsPost) x # fsPost)) dst =
        Some (Ret (None, [], Some (UnresolvedStructField x err)))" by simp
next
  let ?pre = "namedFields psPre @ map (\<lambda>nm. (nm, x)) msPre"
  assume a: "length es = length ?pre \<and> length tss = length ?pre \<and>
    (\<forall>j<length ?pre.
        ResolveValue gen n (fst (?pre ! j))
          (IndexExpr (Ident ''args'') (BasicLit INT_tok (Itoa j)))
          (snd (?pre ! j)) None =
        Some (Ret (es ! j, tss ! j, None))) \<and>
    ResolveValue gen n param
        (IndexExpr (Ident ''args'')
           (BasicLit INT_tok (Itoa (length (namedFields psPre) + length msPre))))
        x None = Some (Ret (e, body, Some err))"
  show "resolveFuncArgs gen n (psPre @ Field (msPre @ param # msPost) x # psPost) =
        Some (Ret ([], [], Some (UnresolvedArgument param x err)))"
    by (rule resolveFuncArgs_err [where es = es and sss = tss and e = e and ss = body])
       (use a in simp_all)
qed

theorem child_failure_wrapped_witness:
  "ResolveValue Map.empty (Suc 0) (''v'' @ ''Elt'') (Ident ''src'') (Ident ''Missing'')
       (Some (Ident ''v'')) =
     Some (Ret (None, [], Some (UnresolvedIdentifier (NotFound ''Missing'')))) \<and>
   ResolveValue Map.empty (Suc (Suc 0)) ''v'' (Ident ''src'') (StarExpr (Ident ''Missing'')) None =
     Some (Ret (None, [], Some (UnresolvedPointerElement (Ident ''Missing'')
                                  (UnresolvedIdentifier (NotFound ''Missing''))))) \<and>
   ResolveValue Map.empty (Suc (Suc 0)) ''v'' (Ident ''src'')
       (ArrayType None (Ident ''Missing'')) None =
     Some (Ret (None, [], Some (UnresolvedArrayElement (Ident ''Missing'')
                                  (UnresolvedIdentifier (NotFound ''Missing''))))) \<and>
   ResolveValue Map.empty (Suc (Suc 0)) ''v'' (Ident ''src'')
       (StructType ([Field [''Ok''] (Ident ''int'')] @ Field ([] @ ''Bad'' # []) (Ident ''Missing'') # []))
       None =
     Some (Ret (None, [], Some (UnresolvedStructField (Ident ''Missing'')
                                  (UnresolvedIdentifier (NotFound ''Missing''))))) \<and>
   resolveFuncArgs Map.empty (Suc 0)
       ([Field [''a''] (Ident ''bool'')] @ Field ([] @ ''b'' # []) (Ident ''Missing'') # []) =
     Some (Ret ([], [], Some (UnresolvedArgument ''b'' (Ident ''Missing'')
                                (UnresolvedIdentifier (NotFound ''Missing'')))))"
  using child_failure_wrapped [where gen = Map.empty and n = "Suc 0" and name = "''v''"
      and jsValue = "Ident ''src''" and x = "Ident ''Missing''" and dst = None and e = None
      and body = "[]" and err = "UnresolvedIdentifier (NotFound ''Missing'')" and len = None
      and fsPre = "[Field [''Ok''] (Ident ''int'')]" and nsPre = "[]" and fieldName = "''Bad''"
      and nsPost = "[]" and fsPost = "[]"
      and sss = "[[AssignStmt [SelectorExpr (Ident ''v'') ''Ok''] ASSIGN
                    [CallExpr (SelectorExpr
                       (CallExpr (SelectorExpr (Ident ''src'') ''Get'') [Ident ''Ok''])
                       ''Int'') []]]]"
      and psPre = "[Field [''a''] (Ident ''bool'')]" and msPre = "[]" and param = "''b''"
      and msPost = "[]" and psPost = "[]"
      and es = "[Some (CallExpr (SelectorExpr
                   (IndexExpr (Ident ''args'') (BasicLit INT_tok ''0'')) ''Bool'') [])]"
      and tss = "[[]]"]
  by (simp add: resolveIdent_def getTypeAlias_def namedFields_def Itoa.simps)

text \<open>
  C9. A shape that is not an identifier, a pointer, an array or a struct type makes the
  dispatcher panic with that shape; no error value is returned. A shape built from these
  four variants only, resolved with a table whose entries are such shapes too, never
  reaches the panic, whatever the fuel.
\<close>

theorem unrecognized_shape_panics:
  "(\<not> fourVariants nativeType \<longrightarrow>
      ResolveValue gen (Suc n) name jsValue nativeType dst =
        Some (Panic (UnrecognizedNativeType nativeType))) \<and>
   ((\<forall>a t. gen a = Some t \<longrightarrow> handled t) \<and> handled shape \<longrightarrow>
      ResolveValue gen m name jsValue shape dst \<noteq> Some (Panic p))"
  using ResolveValue_other [of nativeType gen n name jsValue dst]
    ResolveValue_no_panic [of gen shape m name jsValue dst p]
  by blast

theorem unrecognized_shape_panics_witness:
  "ResolveValue [''T'' \<mapsto> StarExpr (Ident ''int'')] (Suc 0) ''v'' (Ident ''src'')
       (MapType (Ident ''string'') (Ident ''int'')) None =
     Some (Panic (UnrecognizedNativeType (MapType (Ident ''string'') (Ident ''int'')))) \<and>
   ResolveValue [''T'' \<mapsto> StarExpr (Ident ''int'')] 4 ''v'' (Ident ''src'')
       (StructType [Field [''A''] (Ident ''T'')]) None \<noteq>
     Some (Panic (UnrecognizedNativeType (Ident ''T'')))"
proof -
  let ?g = "[''T'' \<mapsto> StarExpr (Ident ''int'')]"
  have a: "\<not> fourVariants (MapType (Ident ''string'') (Ident ''int''))"
    by (simp add: fourVariants_def)
  have b: "\<forall>a t. ?g a = Some t \<longrightarrow> handled t" by simp
  have c: "handled (StructType [Field [''A''] (Ident ''T'')])" by simp
  show ?thesis
    using a b c
      unrecognized_shape_panics [of "MapType (Ident ''string'') (Ident ''int'')" ?g 0 "''v''"
        "Ident ''src''" None "StructType [Field [''A''] (Ident ''T'')]" 4
        "UnrecognizedNativeType (Ident ''T'')"]
    by blast
qed

end
